theory Spec2Isabelle
  imports Main "HOL-Library.Word" "HOL-Library.List_Lexorder"
begin

unbundle bit_operations_syntax

section \<open>JavaScript strings, buffers and the encodings used by the server\<close>

text \<open>
  A JavaScript string is a sequence of UTF-16 code units, a Buffer a sequence of bytes.
  The functions of this section model the parts of the Node.js runtime that the server
  calls: \<^verbatim>\<open>Buffer.from(s, "latin1")\<close>, \<^verbatim>\<open>buf.toString("utf8")\<close>,
  \<^verbatim>\<open>String.prototype.toLowerCase\<close>, \<^verbatim>\<open>trim\<close>, \<^verbatim>\<open>replace\<close> and
  \<^verbatim>\<open>path.extname\<close>.
\<close>

type_synonym byte = "8 word"
type_synonym unit16 = "16 word"
type_synonym jsstring = "unit16 list"

text \<open>An ASCII literal of the source as a JavaScript string.\<close>

definition js :: "string \<Rightarrow> jsstring" where
  "js s = map (\<lambda>c. of_nat (of_char c)) s"

text \<open>
  \<^verbatim>\<open>Buffer.from(s, "latin1")\<close>: one byte per code unit, the low eight bits of it.
\<close>

definition latin1_bytes :: "jsstring \<Rightarrow> byte list" where
  "latin1_bytes s = map ucast s"

text \<open>
  \<^verbatim>\<open>buf.toString("latin1")\<close>: one code unit per byte. This is how the upload
  transport hands over the bytes of a filename.
\<close>

definition latin1_string :: "byte list \<Rightarrow> jsstring" where
  "latin1_string bs = map ucast bs"

text \<open>
  The UTF-8 decoder of \<^verbatim>\<open>buf.toString("utf8")\<close> and of
  \<^verbatim>\<open>fs.readFile(path, "utf-8")\<close>. It never throws: every maximal ill-formed
  subsequence becomes one U+FFFD, and decoding resumes at the offending byte.
  The arguments are the code point collected so far, the number of continuation bytes
  still needed and the bounds the next continuation byte must lie in.
\<close>

function utf8_decode_from :: "nat \<Rightarrow> nat \<Rightarrow> byte \<Rightarrow> byte \<Rightarrow> byte list \<Rightarrow> nat list" where
  "utf8_decode_from cp needed lo hi [] = (if needed = 0 then [] else [0xFFFD])"
| "utf8_decode_from cp needed lo hi (b # bs) =
     (if needed = 0 then
        (if b \<le> 0x7F then unat b # utf8_decode_from 0 0 0x80 0xBF bs
         else if 0xC2 \<le> b \<and> b \<le> 0xDF then
           utf8_decode_from (unat (b AND 0x1F)) 1 0x80 0xBF bs
         else if 0xE0 \<le> b \<and> b \<le> 0xEF then
           utf8_decode_from (unat (b AND 0x0F)) 2
             (if b = 0xE0 then 0xA0 else 0x80) (if b = 0xED then 0x9F else 0xBF) bs
         else if 0xF0 \<le> b \<and> b \<le> 0xF4 then
           utf8_decode_from (unat (b AND 0x07)) 3
             (if b = 0xF0 then 0x90 else 0x80) (if b = 0xF4 then 0x8F else 0xBF) bs
         else 0xFFFD # utf8_decode_from 0 0 0x80 0xBF bs)
      else if lo \<le> b \<and> b \<le> hi then
        (if needed = 1 then (cp * 64 + unat (b AND 0x3F)) # utf8_decode_from 0 0 0x80 0xBF bs
         else utf8_decode_from (cp * 64 + unat (b AND 0x3F)) (needed - 1) 0x80 0xBF bs)
      else 0xFFFD # utf8_decode_from 0 0 0x80 0xBF (b # bs))"
  by pat_completeness auto
termination
  by (relation "measure (\<lambda>(cp, needed, lo, hi, bs). 2 * length bs + (if needed = 0 then 0 else 1))")
    auto

text \<open>A code point as UTF-16: one code unit, or a surrogate pair above U+FFFF.\<close>

definition utf16_units :: "nat \<Rightarrow> jsstring" where
  "utf16_units cp =
     (if cp < 0x10000 then [of_nat cp]
      else [of_nat (0xD800 + (cp - 0x10000) div 0x400), of_nat (0xDC00 + (cp - 0x10000) mod 0x400)])"

definition utf8_string :: "byte list \<Rightarrow> jsstring" where
  "utf8_string bs = concat (map utf16_units (utf8_decode_from 0 0 0x80 0xBF bs))"

text \<open>
  The UTF-8 encoding of a string (\<^verbatim>\<open>Buffer.from(s, "utf8")\<close>), which is what a
  browser puts on the wire for a filename. A surrogate pair is one code point; a lone
  surrogate is encoded as U+FFFD.
\<close>

definition utf8_bytes_of :: "nat \<Rightarrow> byte list" where
  "utf8_bytes_of cp =
     (if cp < 0x80 then [of_nat cp]
      else if cp < 0x800 then [of_nat (0xC0 + cp div 0x40), of_nat (0x80 + cp mod 0x40)]
      else if cp < 0x10000 then
        [of_nat (0xE0 + cp div 0x1000), of_nat (0x80 + cp div 0x40 mod 0x40),
         of_nat (0x80 + cp mod 0x40)]
      else
        [of_nat (0xF0 + cp div 0x40000), of_nat (0x80 + cp div 0x1000 mod 0x40),
         of_nat (0x80 + cp div 0x40 mod 0x40), of_nat (0x80 + cp mod 0x40)])"

fun utf8_bytes :: "jsstring \<Rightarrow> byte list" where
  "utf8_bytes [] = []"
| "utf8_bytes [u] =
     (if 0xD800 \<le> u \<and> u \<le> 0xDFFF then utf8_bytes_of 0xFFFD else utf8_bytes_of (unat u))"
| "utf8_bytes (u # v # us) =
     (if 0xD800 \<le> u \<and> u \<le> 0xDBFF \<and> 0xDC00 \<le> v \<and> v \<le> 0xDFFF then
        utf8_bytes_of (0x10000 + (unat u - 0xD800) * 0x400 + (unat v - 0xDC00)) @ utf8_bytes us
      else if 0xD800 \<le> u \<and> u \<le> 0xDFFF then utf8_bytes_of 0xFFFD @ utf8_bytes (v # us)
      else utf8_bytes_of (unat u) @ utf8_bytes (v # us))"

text \<open>
  A string is well formed when each of its surrogates is half of a pair: it is the
  UTF-16 form of a sequence of Unicode scalar values.
\<close>

fun well_formed :: "jsstring \<Rightarrow> bool" where
  "well_formed [] = True"
| "well_formed [u] = (\<not> (0xD800 \<le> u \<and> u \<le> 0xDFFF))"
| "well_formed (u # v # us) =
     (if 0xD800 \<le> u \<and> u \<le> 0xDBFF then 0xDC00 \<le> v \<and> v \<le> 0xDFFF \<and> well_formed us
      else \<not> (0xD800 \<le> u \<and> u \<le> 0xDFFF) \<and> well_formed (v # us))"

text \<open>
  \<^verbatim>\<open>String.prototype.toLowerCase\<close>, on the ASCII letters. Other code units are
  left as they are; no character outside ASCII lowercases to a letter of
  \<^verbatim>\<open>.md\<close> or \<^verbatim>\<open>.pdf\<close>, so the comparisons of the server against these two
  literals are the ones of the full Unicode mapping.
\<close>

definition lower_unit :: "unit16 \<Rightarrow> unit16" where
  "lower_unit u = (if 0x41 \<le> u \<and> u \<le> 0x5A then u + 0x20 else u)"

definition toLowerCase :: "jsstring \<Rightarrow> jsstring" where
  "toLowerCase s = map lower_unit s"

text \<open>\<^verbatim>\<open>String.prototype.trim\<close>: white space and line terminators of ECMAScript.\<close>

definition is_space :: "unit16 \<Rightarrow> bool" where
  "is_space u \<longleftrightarrow>
     (0x09 \<le> u \<and> u \<le> 0x0D) \<or> u = 0x20 \<or> u = 0xA0 \<or> u = 0x1680 \<or>
     (0x2000 \<le> u \<and> u \<le> 0x200A) \<or> u = 0x2028 \<or> u = 0x2029 \<or> u = 0x202F \<or>
     u = 0x205F \<or> u = 0x3000 \<or> u = 0xFEFF"

definition trim :: "jsstring \<Rightarrow> jsstring" where
  "trim s = rev (dropWhile is_space (rev (dropWhile is_space s)))"

text \<open>\<^verbatim>\<open>s.replace(".", "")\<close>: the first full stop is removed.\<close>

definition replace_dot :: "jsstring \<Rightarrow> jsstring" where
  "replace_dot s = remove1 0x2E s"

text \<open>
  \<^verbatim>\<open>path.extname\<close> (POSIX flavour): a scan from the last code unit down to the
  first, which keeps the position of the last full stop of the last path component.
  Positions are integers, \<open>-1\<close> meaning "not seen yet", as in the library.
\<close>

record ext_scan =
  startDot :: int
  startPart :: int
  endPos :: int
  matchedSlash :: bool
  preDotState :: int

fun extname_loop :: "jsstring \<Rightarrow> nat \<Rightarrow> ext_scan \<Rightarrow> ext_scan" where
  "extname_loop path 0 sc = sc"
| "extname_loop path (Suc i) sc =
     (if path ! i = 0x2F then
        (if \<not> matchedSlash sc then sc\<lparr>startPart := int i + 1\<rparr>
         else extname_loop path i sc)
      else
        (let sc1 = (if endPos sc = - 1 then sc\<lparr>endPos := int i + 1, matchedSlash := False\<rparr>
                    else sc);
             sc2 = (if path ! i = 0x2E then
                      (if startDot sc1 = - 1 then sc1\<lparr>startDot := int i\<rparr>
                       else if preDotState sc1 \<noteq> 1 then sc1\<lparr>preDotState := 1\<rparr>
                       else sc1)
                    else if startDot sc1 \<noteq> - 1 then sc1\<lparr>preDotState := - 1\<rparr>
                    else sc1)
         in extname_loop path i sc2))"

definition extname :: "jsstring \<Rightarrow> jsstring" where
  "extname path =
     (let sc = extname_loop path (length path)
                 \<lparr>startDot = - 1, startPart = 0, endPos = - 1, matchedSlash = True,
                  preDotState = 0\<rparr>
      in if startDot sc = - 1 \<or> endPos sc = - 1 \<or> preDotState sc = 0 \<or>
            (preDotState sc = 1 \<and> startDot sc = endPos sc - 1 \<and>
             startDot sc = startPart sc + 1)
         then []
         else take (nat (endPos sc - startDot sc)) (drop (nat (startDot sc)) path))"

section \<open>The name decoder\<close>

text \<open>
  The upload handler:
  \<^verbatim>\<open>
  let fileName = req.file.originalname;
  try {
    fileName = Buffer.from(fileName, "latin1").toString("utf8");
  } catch (e) {
    console.warn("Warning: Could not convert filename encoding:", e);
  }
  \<close>
  Neither call throws, so the handler of the exception is never entered and the name is
  always the decoded one.
\<close>

definition decodeName :: "jsstring \<Rightarrow> jsstring" where
  "decodeName fileName = utf8_string (latin1_bytes fileName)"

section \<open>The catalog and the content directory\<close>

text \<open>
  A row of the table \<^verbatim>\<open>files\<close> and a row of the table \<^verbatim>\<open>folders\<close>. The columns
  \<^verbatim>\<open>id\<close>, \<^verbatim>\<open>name\<close>, \<^verbatim>\<open>size\<close> and \<^verbatim>\<open>type\<close> carry a suffix, their names being
  taken in HOL. A \<^verbatim>\<open>NULL\<close> folder is \<open>None\<close>.
\<close>

record file_row =
  id_col :: jsstring
  name_col :: jsstring
  originalName :: jsstring
  displayName :: jsstring
  size_col :: nat
  type_col :: jsstring
  uploadDate :: jsstring
  filePath :: jsstring
  folderId :: "jsstring option"

record folder_row =
  folder_id :: jsstring
  folder_name :: jsstring
  createdDate :: jsstring

text \<open>
  The collating sequence of the column \<^verbatim>\<open>originalName\<close>. The two scripts of the
  repository that create the table disagree on it: the server's
  \<^verbatim>\<open>initializeDatabase\<close> declares \<^verbatim>\<open>originalName TEXT NOT NULL\<close> (SQLite's
  default, \<^verbatim>\<open>BINARY\<close>), the reset script declares
  \<^verbatim>\<open>originalName TEXT NOT NULL COLLATE NOCASE\<close>. Both use
  \<^verbatim>\<open>CREATE TABLE IF NOT EXISTS\<close>, so a table that exists keeps its collation.
\<close>

datatype collation = BINARY | NOCASE

definition initializeDatabase :: "collation option \<Rightarrow> collation" where
  "initializeDatabase existing = (case existing of None \<Rightarrow> BINARY | Some c \<Rightarrow> c)"

definition resetDatabase :: collation where
  "resetDatabase = NOCASE"

text \<open>
  The state of the service: the two tables in row order, the collation of
  \<^verbatim>\<open>originalName\<close>, and the file system: the content of every file that exists, and
  the paths at which the operating system refuses a removal (\<^verbatim>\<open>EPERM\<close>,
  \<^verbatim>\<open>EBUSY\<close>, \<^verbatim>\<open>EACCES\<close>), where \<^verbatim>\<open>fs.unlinkSync\<close> throws.
\<close>

record state =
  files :: "file_row list"
  folders :: "folder_row list"
  collation_of :: collation
  blobs :: "jsstring \<rightharpoonup> byte list"
  denied :: "jsstring \<Rightarrow> bool"

text \<open>
  What a request can end in besides its reply: a response with an error status and
  message, an error passed on by the upload middleware, or an exception thrown inside a
  callback that nothing catches.
\<close>

datatype error = Http nat string | MulterError string | UncaughtException

subsection \<open>File system calls\<close>

definition existsSync :: "state \<Rightarrow> jsstring \<Rightarrow> bool" where
  "existsSync st p \<longleftrightarrow> blobs st p \<noteq> None"

text \<open>\<^verbatim>\<open>fs.unlinkSync\<close>: \<open>None\<close> when it throws.\<close>

definition unlinkSync :: "state \<Rightarrow> jsstring \<Rightarrow> state option" where
  "unlinkSync st p =
     (if blobs st p = None \<or> denied st p then None
      else Some (st\<lparr>blobs := (blobs st)(p := None)\<rparr>))"

text \<open>
  The guarded removal that every handler uses:
  \<^verbatim>\<open>if (fs.existsSync(p)) { fs.unlinkSync(p); }\<close>
\<close>

definition remove_blob :: "state \<Rightarrow> jsstring \<Rightarrow> state option" where
  "remove_blob st p = (if existsSync st p then unlinkSync st p else Some st)"

text \<open>
  \<^verbatim>\<open>rows.forEach((row) => { if (fs.existsSync(row.filePath)) fs.unlinkSync(row.filePath); })\<close>:
  the loop stops at the first removal that throws. The result says whether the loop
  ran to its end, and gives the file system as the loop left it.
\<close>

fun remove_blobs :: "jsstring list \<Rightarrow> state \<Rightarrow> bool \<times> state" where
  "remove_blobs [] st = (True, st)"
| "remove_blobs (p # ps) st =
     (case remove_blob st p of
        None \<Rightarrow> (False, st)
      | Some st' \<Rightarrow> remove_blobs ps st')"

text \<open>\<^verbatim>\<open>fs.readFile(path, "utf-8", cb)\<close>: the decoded text, \<open>None\<close> on an error.\<close>

definition readFile_utf8 :: "state \<Rightarrow> jsstring \<Rightarrow> jsstring option" where
  "readFile_utf8 st p = map_option utf8_string (blobs st p)"

subsection \<open>SQL statements\<close>

text \<open>
  Comparison of two texts under a collation. \<^verbatim>\<open>NOCASE\<close> folds the 26 upper case
  letters of ASCII and nothing else.
\<close>

definition text_eq :: "collation \<Rightarrow> jsstring \<Rightarrow> jsstring \<Rightarrow> bool" where
  "text_eq c a b =
     (case c of BINARY \<Rightarrow> a = b | NOCASE \<Rightarrow> map lower_unit a = map lower_unit b)"

text \<open>\<^verbatim>\<open>SELECT * FROM files WHERE id = ?\<close> through \<^verbatim>\<open>db.get\<close>: the first row.\<close>

definition select_by_id :: "state \<Rightarrow> jsstring \<Rightarrow> file_row option" where
  "select_by_id st i = find (\<lambda>r. id_col r = i) (files st)"

text \<open>\<^verbatim>\<open>SELECT id FROM files WHERE originalName = ?\<close> through \<^verbatim>\<open>db.get\<close>.\<close>

definition select_by_originalName :: "state \<Rightarrow> jsstring \<Rightarrow> file_row option" where
  "select_by_originalName st n =
     find (\<lambda>r. text_eq (collation_of st) (originalName r) n) (files st)"

text \<open>\<^verbatim>\<open>SELECT filePath FROM files WHERE folderId = ?\<close>; \<^verbatim>\<open>NULL\<close> equals nothing.\<close>

definition select_by_folder :: "state \<Rightarrow> jsstring \<Rightarrow> file_row list" where
  "select_by_folder st f = filter (\<lambda>r. folderId r = Some f) (files st)"

text \<open>
  \<^verbatim>\<open>SELECT * FROM files ORDER BY uploadDate DESC\<close>: texts are compared as their
  UTF-8 bytes.
\<close>

definition select_all_newest_first :: "state \<Rightarrow> file_row list" where
  "select_all_newest_first st = rev (sort_key (\<lambda>r. utf8_bytes (uploadDate r)) (files st))"

text \<open>\<^verbatim>\<open>INSERT INTO files ...\<close>: refused when the primary key is taken.\<close>

definition insert_row :: "state \<Rightarrow> file_row \<Rightarrow> state option" where
  "insert_row st r =
     (if id_col r \<in> set (map id_col (files st)) then None
      else Some (st\<lparr>files := files st @ [r]\<rparr>))"

definition delete_by_id :: "state \<Rightarrow> jsstring \<Rightarrow> state" where
  "delete_by_id st i = st\<lparr>files := filter (\<lambda>r. id_col r \<noteq> i) (files st)\<rparr>"

definition delete_by_folder :: "state \<Rightarrow> jsstring \<Rightarrow> state" where
  "delete_by_folder st f = st\<lparr>files := filter (\<lambda>r. folderId r \<noteq> Some f) (files st)\<rparr>"

definition delete_all :: "state \<Rightarrow> state" where
  "delete_all st = st\<lparr>files := []\<rparr>"

definition delete_folder_row :: "state \<Rightarrow> jsstring \<Rightarrow> state" where
  "delete_folder_row st f = st\<lparr>folders := filter (\<lambda>d. folder_id d \<noteq> f) (folders st)\<rparr>"

definition update_displayName :: "state \<Rightarrow> jsstring \<Rightarrow> jsstring \<Rightarrow> state" where
  "update_displayName st d i =
     st\<lparr>files := map (\<lambda>r. if id_col r = i then r\<lparr>displayName := d\<rparr> else r) (files st)\<rparr>"

definition update_folderId :: "state \<Rightarrow> jsstring option \<Rightarrow> jsstring \<Rightarrow> state" where
  "update_folderId st f i =
     st\<lparr>files := map (\<lambda>r. if id_col r = i then r\<lparr>folderId := f\<rparr> else r) (files st)\<rparr>"

section \<open>The request handlers\<close>

text \<open>
  Every handler takes \<open>fails\<close>, which says for each SQL statement of the handler
  (numbered in the order in which the handler issues them) whether the database reports
  an error for it, and returns its reply together with the state it leaves. A handler
  that only reads returns its reply alone.
\<close>

subsection \<open>\<^verbatim>\<open>GET /api/files\<close> and \<^verbatim>\<open>GET /api/files/:id\<close>\<close>

definition list_files :: "(nat \<Rightarrow> bool) \<Rightarrow> state \<Rightarrow> error + file_row list" where
  "list_files fails st =
     (if fails 0 then Inl (Http 500 ''Failed to fetch files'')
      else Inr (select_all_newest_first st))"

text \<open>
  The reply is the row with a field \<^verbatim>\<open>content\<close>, read with
  \<^verbatim>\<open>fs.readFile(filePath, "utf-8", ...)\<close> whatever the type of the file.
\<close>

definition get_file :: "(nat \<Rightarrow> bool) \<Rightarrow> state \<Rightarrow> jsstring \<Rightarrow> error + file_row \<times> jsstring" where
  "get_file fails st i =
     (if fails 0 then Inl (Http 500 ''Database error'')
      else case select_by_id st i of
        None \<Rightarrow> Inl (Http 404 ''File not found'')
      | Some row \<Rightarrow>
          (case readFile_utf8 st (filePath row) of
             None \<Rightarrow> Inl (Http 500 ''Failed to read file'')
           | Some data \<Rightarrow> Inr (row, data)))"

subsection \<open>\<^verbatim>\<open>POST /api/upload\<close>\<close>

text \<open>
  The multipart request: the part \<^verbatim>\<open>file\<close> (its filename as the transport hands it
  over, and its bytes) if there is one, and the text field \<^verbatim>\<open>folderId\<close>. With it
  come the values the handler draws from the clock and the random generator: the
  prefix \<^verbatim>\<open>timestamp_random\<close> of the stored name, the identifier of the new row,
  and the two readings of \<^verbatim>\<open>new Date().toISOString()\<close>.
\<close>

record upload_request =
  file_part :: "(jsstring \<times> byte list) option"
  body_folderId :: "jsstring option"
  stamp :: jsstring
  fileId :: jsstring
  insertTime :: jsstring
  replyTime :: jsstring

record upload_reply =
  reply_id :: jsstring
  reply_name :: jsstring
  reply_originalName :: jsstring
  reply_displayName :: jsstring
  reply_size :: nat
  reply_type :: jsstring
  reply_uploadDate :: jsstring

definition uploadsDir :: jsstring where
  "uploadsDir = js ''uploads''"

text \<open>\<^verbatim>\<open>fileFilter\<close>: the extension of the name as received, in lower case.\<close>

definition fileFilter :: "jsstring \<Rightarrow> bool" where
  "fileFilter originalname \<longleftrightarrow>
     (let ext = toLowerCase (extname originalname) in ext = js ''.md'' \<or> ext = js ''.pdf'')"

text \<open>
  \<^verbatim>\<open>filename\<close> of the disk storage:
  \<^verbatim>\<open>`${timestamp}_${random}_${originalname}`\<close> with the name decoded.
\<close>

definition storage_filename :: "jsstring \<Rightarrow> jsstring \<Rightarrow> jsstring" where
  "storage_filename prefix originalname =
     prefix @ js ''_'' @ utf8_string (latin1_bytes originalname)"

definition storage_path :: "jsstring \<Rightarrow> jsstring \<Rightarrow> jsstring" where
  "storage_path prefix originalname = uploadsDir @ js ''/'' @ storage_filename prefix originalname"

text \<open>\<^verbatim>\<open>req.body.folderId || null\<close>: the empty string is falsy.\<close>

definition or_null :: "jsstring option \<Rightarrow> jsstring option" where
  "or_null v = (case v of None \<Rightarrow> None | Some s \<Rightarrow> if s = [] then None else Some s)"

text \<open>
  \<^verbatim>\<open>insertFile\<close>, the closure of the handler that inserts the row and replies.
  Its statement is number 3 of the handler.
\<close>

definition insertFile ::
  "(nat \<Rightarrow> bool) \<Rightarrow> upload_request \<Rightarrow> jsstring \<Rightarrow> nat \<Rightarrow> state \<Rightarrow> (error + upload_reply) \<times> state" where
  "insertFile fails req originalname sz st =
     (let fileName = decodeName originalname;
          fileType = replace_dot (toLowerCase (extname originalname));
          row = \<lparr>id_col = fileId req, name_col = storage_filename (stamp req) originalname,
                 originalName = fileName, displayName = fileName, size_col = sz,
                 type_col = fileType, uploadDate = insertTime req,
                 filePath = storage_path (stamp req) originalname,
                 folderId = or_null (body_folderId req)\<rparr>
      in if fails 3 then (Inl (Http 500 ''Failed to save file''), st)
         else case insert_row st row of
           None \<Rightarrow> (Inl (Http 500 ''Failed to save file''), st)
         | Some st' \<Rightarrow>
             (Inr \<lparr>reply_id = fileId req, reply_name = storage_filename (stamp req) originalname,
                   reply_originalName = fileName, reply_displayName = fileName,
                   reply_size = sz, reply_type = fileType,
                   reply_uploadDate = replyTime req\<rparr>, st'))"

text \<open>
  The middleware \<^verbatim>\<open>upload.single("file")\<close> runs first: it applies the filter, and
  only then writes the bytes under the content directory; a file over the limit of
  10 MiB is removed again and the request ends with the middleware's error. The
  handler proper starts at the test of \<^verbatim>\<open>req.file\<close>. Its statements: 0 the lookup by
  name, 1 the lookup of the old path, 2 the removal of the old row, 3 the insertion.
  The errors of statements 1 and 2 are ignored by the source.
\<close>

definition upload :: "(nat \<Rightarrow> bool) \<Rightarrow> state \<Rightarrow> upload_request \<Rightarrow> (error + upload_reply) \<times> state" where
  "upload fails st req =
     (case file_part req of
        None \<Rightarrow> (Inl (Http 400 ''No file provided''), st)
      | Some (originalname, bytes) \<Rightarrow>
          if \<not> fileFilter originalname then
            (Inl (MulterError ''Only MD and PDF files are allowed''), st)
          else if length bytes > 10 * 1024 * 1024 then
            (Inl (MulterError ''File too large''), st)
          else
            let st1 = st\<lparr>blobs := (blobs st)(storage_path (stamp req) originalname \<mapsto> bytes)\<rparr>
            in if fails 0 then (Inl (Http 500 ''Database error''), st1)
               else case select_by_originalName st1 (decodeName originalname) of
                 None \<Rightarrow> insertFile fails req originalname (length bytes) st1
               | Some row \<Rightarrow>
                   (let oldFile = (if fails 1 then None else select_by_id st1 (id_col row))
                    in case (case oldFile of None \<Rightarrow> Some st1
                                           | Some old \<Rightarrow> remove_blob st1 (filePath old)) of
                         None \<Rightarrow> (Inl UncaughtException, st1)
                       | Some st2 \<Rightarrow>
                           insertFile fails req originalname (length bytes)
                             (if fails 2 then st2 else delete_by_id st2 (id_col row))))"

subsection \<open>\<^verbatim>\<open>DELETE /api/files/:id\<close>, \<^verbatim>\<open>DELETE /api/clear\<close>, \<^verbatim>\<open>DELETE /api/folders/:id\<close>\<close>

definition delete_file :: "(nat \<Rightarrow> bool) \<Rightarrow> state \<Rightarrow> jsstring \<Rightarrow> (error + string) \<times> state" where
  "delete_file fails st i =
     (if fails 0 then (Inl (Http 404 ''File not found''), st)
      else case select_by_id st i of
        None \<Rightarrow> (Inl (Http 404 ''File not found''), st)
      | Some row \<Rightarrow>
          (case remove_blob st (filePath row) of
             None \<Rightarrow> (Inl UncaughtException, st)
           | Some st1 \<Rightarrow>
               if fails 1 then (Inl (Http 500 ''Failed to delete file''), st1)
               else (Inr ''File deleted successfully'', delete_by_id st1 i)))"

definition clear_all :: "(nat \<Rightarrow> bool) \<Rightarrow> state \<Rightarrow> (error + string) \<times> state" where
  "clear_all fails st =
     (if fails 0 then (Inl (Http 500 ''Database error''), st)
      else case remove_blobs (map filePath (files st)) st of
        (False, st1) \<Rightarrow> (Inl UncaughtException, st1)
      | (True, st1) \<Rightarrow>
          if fails 1 then (Inl (Http 500 ''Failed to clear files''), st1)
          else (Inr ''All files cleared'', delete_all st1))"

definition delete_folder :: "(nat \<Rightarrow> bool) \<Rightarrow> state \<Rightarrow> jsstring \<Rightarrow> (error + string) \<times> state" where
  "delete_folder fails st f =
     (if fails 0 then (Inl (Http 500 ''Database error''), st)
      else case remove_blobs (map filePath (select_by_folder st f)) st of
        (False, st1) \<Rightarrow> (Inl UncaughtException, st1)
      | (True, st1) \<Rightarrow>
          if fails 1 then (Inl (Http 500 ''Failed to delete files''), st1)
          else if fails 2 then (Inl (Http 500 ''Failed to delete folder''), delete_by_folder st1 f)
          else (Inr ''Folder deleted successfully'',
                delete_folder_row (delete_by_folder st1 f) f))"

subsection \<open>\<^verbatim>\<open>PUT /api/files/:id/rename\<close> and \<^verbatim>\<open>PUT /api/files/:id/move\<close>\<close>

text \<open>
  The field of the JSON body is a string or absent (\<open>None\<close>).
  \<^verbatim>\<open>!displayName || displayName.trim() === ""\<close> rejects the absent, the empty and
  the blank name.
\<close>

definition rename_file ::
  "(nat \<Rightarrow> bool) \<Rightarrow> state \<Rightarrow> jsstring \<Rightarrow> jsstring option \<Rightarrow> (error + string \<times> jsstring) \<times> state" where
  "rename_file fails st i body_displayName =
     (case body_displayName of
        None \<Rightarrow> (Inl (Http 400 ''Display name is required''), st)
      | Some d \<Rightarrow>
          if d = [] \<or> trim d = [] then (Inl (Http 400 ''Display name is required''), st)
          else if fails 0 then (Inl (Http 500 ''Failed to rename file''), st)
          else (Inr (''File renamed successfully'', trim d), update_displayName st (trim d) i))"

definition move_file ::
  "(nat \<Rightarrow> bool) \<Rightarrow> state \<Rightarrow> jsstring \<Rightarrow> jsstring option \<Rightarrow> (error + string) \<times> state" where
  "move_file fails st i body_folder =
     (if fails 0 then (Inl (Http 500 ''Failed to move file''), st)
      else (Inr ''File moved successfully'', update_folderId st (or_null body_folder) i))"

section \<open>Example data\<close>

text \<open>The text of the filename example, "taqrir" in Arabic letters and \<^verbatim>\<open>.md\<close>.\<close>

definition taqrir_md :: jsstring where
  "taqrir_md = [0x062A, 0x0642, 0x0631, 0x064A, 0x0631, 0x2E, 0x6D, 0x64]"

text \<open>
  A name that a client sent in Latin-1: e with an acute accent (byte \<open>E9\<close>) and
  \<^verbatim>\<open>.md\<close>. Its bytes are not UTF-8.
\<close>

definition e_acute_md :: jsstring where
  "e_acute_md = [0xE9, 0x2E, 0x6D, 0x64]"

definition no_faults :: "nat \<Rightarrow> bool" where
  "no_faults n = False"

definition row_report :: file_row where
  "row_report =
     \<lparr>id_col = js ''f1'', name_col = js ''1_a_Report.md'', originalName = js ''Report.md'',
      displayName = js ''Quarterly'', size_col = 3, type_col = js ''md'',
      uploadDate = js ''2024-01-01T00:00:00.000Z'', filePath = js ''uploads/1_a_Report.md'',
      folderId = Some (js ''d1'')\<rparr>"

definition row_scan :: file_row where
  "row_scan =
     \<lparr>id_col = js ''f2'', name_col = js ''2_b_scan.pdf'', originalName = js ''scan.pdf'',
      displayName = js ''scan.pdf'', size_col = 5, type_col = js ''pdf'',
      uploadDate = js ''2024-01-02T00:00:00.000Z'', filePath = js ''uploads/2_b_scan.pdf'',
      folderId = None\<rparr>"

text \<open>
  A catalog created by the server itself, with a Markdown file in the folder
  \<^verbatim>\<open>d1\<close> and a PDF outside of any folder.
\<close>

definition example_state :: state where
  "example_state =
     \<lparr>files = [row_report, row_scan],
      folders = [\<lparr>folder_id = js ''d1'', folder_name = js ''Docs'',
                  createdDate = js ''2024-01-01T00:00:00.000Z''\<rparr>],
      collation_of = initializeDatabase None,
      blobs = [js ''uploads/1_a_Report.md'' \<mapsto> [0x23, 0x20, 0x41],
               js ''uploads/2_b_scan.pdf'' \<mapsto> [0x25, 0x50, 0x44, 0x46, 0xFF]],
      denied = (\<lambda>p. False)\<rparr>"

definition zip_request :: upload_request where
  "zip_request =
     \<lparr>file_part = Some (js ''archive.zip'', [0x50, 0x4B, 0x03, 0x04]), body_folderId = None,
      stamp = js ''3_c'', fileId = js ''f3'', insertTime = js ''2024-01-03T00:00:00.000Z'',
      replyTime = js ''2024-01-03T00:00:00.001Z''\<rparr>"

text \<open>The database reports an error for the second statement of a handler only.\<close>

definition rows_fault :: "nat \<Rightarrow> bool" where
  "rows_fault n \<longleftrightarrow> n = 1"

text \<open>
  The example catalog with the first blob locked by the operating system, and with
  the first blob already missing from the content directory.
\<close>

definition locked_state :: state where
  "locked_state = example_state\<lparr>denied := (\<lambda>p. p = js ''uploads/1_a_Report.md'')\<rparr>"

definition missing_blob_state :: state where
  "missing_blob_state =
     example_state\<lparr>blobs := [js ''uploads/2_b_scan.pdf'' \<mapsto> [0x25, 0x50, 0x44, 0x46, 0xFF]]\<rparr>"

text \<open>An upload of \<^verbatim>\<open>report.md\<close>, a name that the example catalog holds as \<^verbatim>\<open>Report.md\<close>.\<close>

definition report_request :: upload_request where
  "report_request =
     \<lparr>file_part = Some (js ''report.md'', [0x23, 0x20, 0x42]), body_folderId = None,
      stamp = js ''3_c'', fileId = js ''f3'', insertTime = js ''2024-01-03T00:00:00.000Z'',
      replyTime = js ''2024-01-03T00:00:00.001Z''\<rparr>"

text \<open>An upload of \<^verbatim>\<open>Report.md\<close>, the very name that the example catalog holds.\<close>

definition exact_request :: upload_request where
  "exact_request =
     \<lparr>file_part = Some (js ''Report.md'', [0x23, 0x20, 0x42]), body_folderId = None,
      stamp = js ''3_c'', fileId = js ''f3'', insertTime = js ''2024-01-03T00:00:00.000Z'',
      replyTime = js ''2024-01-03T00:00:00.001Z''\<rparr>"

section \<open>Literals\<close>

text \<open>Distinct ASCII literals are distinct JavaScript strings.\<close>

lemma of_char_mod_65536: "(of_char c :: nat) mod 65536 = of_char c"
proof -
  have "(of_char c :: nat) < 256" by simp
  then have "(of_char c :: nat) < 65536" by linarith
  then show ?thesis by (rule mod_less)
qed

lemma js_unit_inj: "(of_nat (of_char c) :: unit16) = of_nat (of_char d) \<longleftrightarrow> c = d"
proof
  assume "(of_nat (of_char c) :: unit16) = of_nat (of_char d)"
  then have "unat (of_nat (of_char c) :: unit16) = unat (of_nat (of_char d) :: unit16)"
    by simp
  then have "(of_char c :: nat) = of_char d"
    by (simp add: unat_of_nat of_char_mod_65536)
  then show "c = d" by simp
qed simp

lemma js_eq_iff [simp]: "js a = js b \<longleftrightarrow> a = b"
proof -
  have "inj (\<lambda>c. of_nat (of_char c) :: unit16)"
    by (rule injI) (simp add: js_unit_inj)
  then show ?thesis
    unfolding js_def by (rule inj_map_eq_map)
qed

lemma js_append: "js a @ js b = js (a @ b)"
  by (simp add: js_def)

lemma js_Nil [simp]: "js s = [] \<longleftrightarrow> s = []"
  by (simp add: js_def)

text \<open>The example catalog, field by field.\<close>

lemma example_folder_rows: "select_by_folder example_state (js ''d1'') = [row_report]"
  by (simp add: select_by_folder_def example_state_def row_report_def row_scan_def)

lemma example_paths:
  "filePath row_report = js ''uploads/1_a_Report.md''"
  "filePath row_scan = js ''uploads/2_b_scan.pdf''"
  by (simp_all add: row_report_def row_scan_def)

lemma example_fields:
  "files example_state = [row_report, row_scan]"
  "collation_of example_state = BINARY"
  "blobs example_state = [js ''uploads/1_a_Report.md'' \<mapsto> [0x23, 0x20, 0x41],
                          js ''uploads/2_b_scan.pdf'' \<mapsto> [0x25, 0x50, 0x44, 0x46, 0xFF]]"
  "denied example_state = (\<lambda>p. False)"
  by (simp_all add: example_state_def initializeDatabase_def)

section \<open>The name decoder: recovery and malformed names\<close>

text \<open>
  C5. The filename "taqrir.md" in Arabic letters, encoded as UTF-8 and handed over by the
  transport as Latin-1 (ISO 8859-1, one code unit per byte, the single-byte encoding
  that the source names), is recovered exactly by the name decoder of the upload
  handler.
\<close>

theorem name_decoding_recovery:
  "decodeName (latin1_string (utf8_bytes taqrir_md)) = taqrir_md"
  by (simp add: decodeName_def taqrir_md_def utf8_string_def latin1_bytes_def latin1_string_def
      utf8_bytes_of_def utf16_units_def)

text \<open>
  C6. A name whose bytes are not well-formed UTF-8 is not given back unmodified: the
  decoder does not throw, so the fallback of the handler is never taken, and the
  ill-formed byte comes out as U+FFFD.
\<close>

theorem malformed_name_is_not_kept:
  "decodeName e_acute_md = [0xFFFD, 0x2E, 0x6D, 0x64] \<and> decodeName e_acute_md \<noteq> e_acute_md"
  by (simp add: decodeName_def e_acute_md_def utf8_string_def latin1_bytes_def utf16_units_def)

subsection \<open>Recovery of every well-formed name\<close>

text \<open>
  The decoder inverts the encoder on every scalar value, one case for each length of
  the encoding.
\<close>

lemma latin1_roundtrip: "latin1_bytes (latin1_string bs) = bs"
proof -
  have "ucast (ucast (a :: byte) :: unit16) = a" for a
    by (rule ucast_up_ucast_id) (simp add: is_up)
  then show ?thesis
    by (simp add: latin1_bytes_def latin1_string_def comp_def)
qed

lemma byte_unat_of_nat: "n < 256 \<Longrightarrow> unat (of_nat n :: byte) = n"
  by (simp add: unat_of_nat)

lemma byte_mask_mod:
  "unat ((b :: byte) AND 0x3F) = unat b mod 64"
  "unat ((b :: byte) AND 0x1F) = unat b mod 32"
  "unat ((b :: byte) AND 0x0F) = unat b mod 16"
  "unat ((b :: byte) AND 0x07) = unat b mod 8"
proof -
  have m: "(0x3F :: byte) = mask 6" "(0x1F :: byte) = mask 5" "(0x0F :: byte) = mask 4"
    "(0x07 :: byte) = mask 3"
    by (simp_all add: mask_eq_exp_minus_1)
  show "unat (b AND 0x3F) = unat b mod 64" "unat (b AND 0x1F) = unat b mod 32"
    "unat (b AND 0x0F) = unat b mod 16" "unat (b AND 0x07) = unat b mod 8"
    unfolding m by (simp_all flip: take_bit_eq_mask add: unsigned_take_bit_eq take_bit_eq_mod unat_mod_distrib)
qed

lemma byte_le_numeral:
  "(b :: byte) \<le> numeral k \<longleftrightarrow> unat b \<le> unat (numeral k :: byte)"
  "numeral k \<le> (b :: byte) \<longleftrightarrow> unat (numeral k :: byte) \<le> unat b"
  "(b :: byte) = numeral k \<longleftrightarrow> unat b = unat (numeral k :: byte)"
  by (simp_all add: word_le_nat_alt word_unat_eq_iff del: unsigned_numeral)


lemma decode_one:
  assumes "cp < 0x80"
  shows "utf8_decode_from 0 0 0x80 0xBF (utf8_bytes_of cp @ rest) =
         cp # utf8_decode_from 0 0 0x80 0xBF rest"
proof -
  have "cp < 256" using assms by simp
  then show ?thesis
    using assms by (simp add: utf8_bytes_of_def byte_le_numeral byte_unat_of_nat split del: if_split)
qed

lemma mod_add_mult: "(x::nat) < m \<Longrightarrow> (k * m + x) mod m = x"
  by simp

lemma decode_two:
  assumes "0x80 \<le> cp" "cp < 0x800"
  shows "utf8_decode_from 0 0 0x80 0xBF (utf8_bytes_of cp @ rest) =
         cp # utf8_decode_from 0 0 0x80 0xBF rest"
proof -
  define a where "a = cp div 64"
  define b where "b = cp mod 64"
  define w1 :: byte where "w1 = of_nat (192 + a)"
  define w2 :: byte where "w2 = of_nat (128 + b)"
  have cp: "cp = a * 64 + b" by (simp add: a_def b_def)
  have bound: "b < 64" by (simp add: b_def)
  have a: "2 \<le> a" "a < 32" using assms bound unfolding cp by linarith+
  have u: "unat w1 = 192 + a" "unat w2 = 128 + b"
    unfolding w1_def w2_def using a bound by (simp_all add: byte_unat_of_nat del: of_nat_add)
  have m: "(192 + a) mod 32 = a" "(128 + b) mod 64 = b"
    using mod_add_mult [of a 32 6] mod_add_mult [of b 64 2] a bound by simp_all
  have enc: "utf8_bytes_of cp = [w1, w2]"
    using assms by (simp add: utf8_bytes_of_def a_def b_def w1_def w2_def)
  show ?thesis
    unfolding enc using a bound
    by (simp add: byte_le_numeral byte_mask_mod u m cp split del: if_split)
qed


lemma decode_three:
  assumes "0x800 \<le> cp" "cp < 0x10000" "\<not> (0xD800 \<le> cp \<and> cp \<le> 0xDFFF)"
  shows "utf8_decode_from 0 0 0x80 0xBF (utf8_bytes_of cp @ rest) =
         cp # utf8_decode_from 0 0 0x80 0xBF rest"
proof -
  define a where "a = cp div 4096"
  define b where "b = cp div 64 mod 64"
  define c where "c = cp mod 64"
  define w1 :: byte where "w1 = of_nat (224 + a)"
  define w2 :: byte where "w2 = of_nat (128 + b)"
  define w3 :: byte where "w3 = of_nat (128 + c)"
  have d1: "cp div 64 div 64 = a" by (simp add: a_def div_mult2_eq [symmetric])
  have e1: "cp div 64 = a * 64 + b"
    using div_mult_mod_eq [of "cp div 64" 64, symmetric] unfolding d1 b_def .
  have cp: "cp = (a * 64 + b) * 64 + c"
    using div_mult_mod_eq [of cp 64, symmetric] unfolding e1 c_def .
  have bound: "b < 64" "c < 64" by (simp_all add: b_def c_def)
  have a: "a < 16" using assms bound unfolding cp by (simp add: algebra_simps)
  have lo: "32 \<le> b" if "a = 0"
    using assms bound that unfolding cp by (simp add: algebra_simps)
  have hi: "b < 32" if "a = 13"
    using assms bound that unfolding cp by (simp add: algebra_simps)
  have u: "unat w1 = 224 + a" "unat w2 = 128 + b" "unat w3 = 128 + c"
    unfolding w1_def w2_def w3_def using a bound
    by (simp_all add: byte_unat_of_nat del: of_nat_add)
  have m: "(224 + a) mod 16 = a" "(128 + b) mod 64 = b" "(128 + c) mod 64 = c"
    using mod_add_mult [of a 16 14] mod_add_mult [of b 64 2] mod_add_mult [of c 64 2] a bound
    by simp_all
  have enc: "utf8_bytes_of cp = [w1, w2, w3]"
    using assms by (simp add: utf8_bytes_of_def a_def b_def c_def w1_def w2_def w3_def)
  consider "a = 0" | "a = 13" | "a \<noteq> 0" "a \<noteq> 13" by blast
  then show ?thesis
  proof cases
    case 1
    with lo bound show ?thesis
      unfolding enc by (simp add: byte_le_numeral byte_mask_mod u m cp split del: if_split)
  next
    case 2
    with hi bound show ?thesis
      unfolding enc by (simp add: byte_le_numeral byte_mask_mod u m cp split del: if_split)
  next
    case 3
    with a bound show ?thesis
      unfolding enc by (simp add: byte_le_numeral byte_mask_mod u m cp split del: if_split)
  qed
qed

lemma decode_four:
  assumes "0x10000 \<le> cp" "cp < 0x110000"
  shows "utf8_decode_from 0 0 0x80 0xBF (utf8_bytes_of cp @ rest) =
         cp # utf8_decode_from 0 0 0x80 0xBF rest"
proof -
  define a where "a = cp div 262144"
  define b where "b = cp div 4096 mod 64"
  define c where "c = cp div 64 mod 64"
  define d where "d = cp mod 64"
  define w1 :: byte where "w1 = of_nat (240 + a)"
  define w2 :: byte where "w2 = of_nat (128 + b)"
  define w3 :: byte where "w3 = of_nat (128 + c)"
  define w4 :: byte where "w4 = of_nat (128 + d)"
  have d2: "cp div 4096 div 64 = a" by (simp add: a_def div_mult2_eq [symmetric])
  have e2: "cp div 4096 = a * 64 + b"
    using div_mult_mod_eq [of "cp div 4096" 64, symmetric] unfolding d2 b_def .
  have d1: "cp div 64 div 64 = a * 64 + b" by (simp add: e2 [symmetric] div_mult2_eq [symmetric])
  have e1: "cp div 64 = (a * 64 + b) * 64 + c"
    using div_mult_mod_eq [of "cp div 64" 64, symmetric] unfolding d1 c_def .
  have cp: "cp = ((a * 64 + b) * 64 + c) * 64 + d"
    using div_mult_mod_eq [of cp 64, symmetric] unfolding e1 d_def .
  have bound: "b < 64" "c < 64" "d < 64" by (simp_all add: b_def c_def d_def)
  have a: "a \<le> 4" using assms bound unfolding cp by (simp add: algebra_simps)
  have lo: "16 \<le> b" if "a = 0"
    using assms bound that unfolding cp by (simp add: algebra_simps)
  have hi: "b < 16" if "a = 4"
    using assms bound that unfolding cp by (simp add: algebra_simps)
  have u: "unat w1 = 240 + a" "unat w2 = 128 + b" "unat w3 = 128 + c" "unat w4 = 128 + d"
    unfolding w1_def w2_def w3_def w4_def using a bound
    by (simp_all add: byte_unat_of_nat del: of_nat_add)
  have m: "(240 + a) mod 8 = a" "(128 + b) mod 64 = b" "(128 + c) mod 64 = c"
    "(128 + d) mod 64 = d"
    using mod_add_mult [of a 8 30] mod_add_mult [of b 64 2] mod_add_mult [of c 64 2]
      mod_add_mult [of d 64 2] a bound
    by simp_all
  have enc: "utf8_bytes_of cp = [w1, w2, w3, w4]"
    using assms
    by (simp add: utf8_bytes_of_def a_def b_def c_def d_def w1_def w2_def w3_def w4_def)
  consider "a = 0" | "a = 4" | "a \<noteq> 0" "a \<noteq> 4" by blast
  then show ?thesis
  proof cases
    case 1
    with lo bound show ?thesis
      unfolding enc by (simp add: byte_le_numeral byte_mask_mod u m cp split del: if_split)
  next
    case 2
    with hi bound show ?thesis
      unfolding enc by (simp add: byte_le_numeral byte_mask_mod u m cp split del: if_split)
  next
    case 3
    with a bound show ?thesis
      unfolding enc by (simp add: byte_le_numeral byte_mask_mod u m cp split del: if_split)
  qed
qed


lemma decode_scalar:
  assumes "cp < 0x110000" "\<not> (0xD800 \<le> cp \<and> cp \<le> 0xDFFF)"
  shows "utf8_decode_from 0 0 0x80 0xBF (utf8_bytes_of cp @ rest) =
         cp # utf8_decode_from 0 0 0x80 0xBF rest"
proof -
  consider "cp < 0x80" | "0x80 \<le> cp" "cp < 0x800" | "0x800 \<le> cp" "cp < 0x10000"
    | "0x10000 \<le> cp"
    by linarith
  then show ?thesis
    using assms by cases (simp_all add: decode_one decode_two decode_three decode_four)
qed

lemma utf8_string_scalar:
  assumes "cp < 0x110000" "\<not> (0xD800 \<le> cp \<and> cp \<le> 0xDFFF)"
  shows "utf8_string (utf8_bytes_of cp @ rest) = utf16_units cp @ utf8_string rest"
  using assms by (simp add: utf8_string_def decode_scalar)

lemma unit_le_numeral:
  "(u :: unit16) \<le> numeral k \<longleftrightarrow> unat u \<le> unat (numeral k :: unit16)"
  "numeral k \<le> (u :: unit16) \<longleftrightarrow> unat (numeral k :: unit16) \<le> unat u"
  by (simp_all add: word_le_nat_alt del: unsigned_numeral)

lemma unit_bound: "unat (u :: unit16) < 65536"
  using unsigned_less [of u, where ?'a = nat] by simp

lemma utf8_string_unit:
  assumes "\<not> (0xD800 \<le> u \<and> u \<le> 0xDFFF)"
  shows "utf8_string (utf8_bytes_of (unat u) @ rest) = u # utf8_string rest"
proof -
  have "\<not> (0xD800 \<le> unat u \<and> unat u \<le> 0xDFFF)"
    using assms by (simp add: unit_le_numeral)
  moreover have "unat u < 0x110000" using unit_bound [of u] by simp
  ultimately show ?thesis
    using unit_bound [of u] by (simp add: utf8_string_scalar utf16_units_def)
qed

lemma utf8_string_pair:
  assumes "0xD800 \<le> u" "u \<le> 0xDBFF" "0xDC00 \<le> v" "v \<le> 0xDFFF"
  shows "utf8_string (utf8_bytes_of (0x10000 + (unat u - 0xD800) * 0x400 + (unat v - 0xDC00)) @ rest) =
         u # v # utf8_string rest"
proof -
  define h where "h = unat u - 0xD800"
  define l where "l = unat v - 0xDC00"
  have hu: "unat u = 0xD800 + h" and h: "h < 0x400"
    using assms(1,2) by (simp_all add: unit_le_numeral h_def)
  have lv: "unat v = 0xDC00 + l" and l: "l < 0x400"
    using assms(3,4) by (simp_all add: unit_le_numeral l_def)
  have range: "0x10000 + h * 0x400 + l < 0x110000" using h l by simp
  have split: "(h * 0x400 + l) div 0x400 = h" "(h * 0x400 + l) mod 0x400 = l"
    using l by simp_all
  have "utf16_units (0x10000 + h * 0x400 + l) = [of_nat (unat u), of_nat (unat v)]"
    unfolding hu lv using l by (simp add: utf16_units_def del: of_nat_add)
  then have "utf16_units (0x10000 + h * 0x400 + l) = [u, v]"
    by simp
  then show ?thesis
    using range unfolding h_def [symmetric] l_def [symmetric]
    by (simp add: utf8_string_scalar)
qed

text \<open>
  The recovery holds for every name, not only for the example: a well-formed text that
  was encoded as UTF-8 and handed over as Latin-1 is decoded to itself.
\<close>

theorem decodeName_recovers_well_formed:
  "well_formed s \<Longrightarrow> decodeName (latin1_string (utf8_bytes s)) = s"
proof -
  have "well_formed s \<Longrightarrow> utf8_string (utf8_bytes s) = s"
  proof (induction s rule: utf8_bytes.induct)
    case 1
    show ?case by (simp add: utf8_string_def)
  next
    case (2 u)
    then show ?case
      using utf8_string_unit [of u "[]"] by (auto simp: utf8_string_def)
  next
    case (3 u v us)
    show ?case
    proof (cases "0xD800 \<le> u \<and> u \<le> 0xDBFF")
      case True
      with "3.prems" have low: "0xDC00 \<le> v" "v \<le> 0xDFFF" and wf: "well_formed us"
        by simp_all
      have ih: "utf8_string (utf8_bytes us) = us"
        using "3.IH"(1) True low wf by blast
      show ?thesis
        using True low by (simp add: utf8_string_pair ih)
    next
      case False
      with "3.prems" have ns: "\<not> (0xD800 \<le> u \<and> u \<le> 0xDFFF)" and wf: "well_formed (v # us)"
        by simp_all
      have ih: "utf8_string (utf8_bytes (v # us)) = v # us"
        using "3.IH"(2,3) False ns wf by blast
      show ?thesis
        using False ns by (auto simp: utf8_string_unit ih)
    qed
  qed
  then show "well_formed s \<Longrightarrow> decodeName (latin1_string (utf8_bytes s)) = s"
    by (simp add: decodeName_def latin1_roundtrip)
qed

section \<open>Upload: rejection of unsupported types\<close>

lemma zip_ext: "toLowerCase (extname (js ''archive.zip'')) = js ''.zip''"
  by code_simp

text \<open>
  C8. An upload whose filename has an extension that is, in lower case, neither
  \<^verbatim>\<open>.md\<close> nor \<^verbatim>\<open>.pdf\<close> ends with the error of the file filter and leaves the state
  as it was: no row is inserted and nothing is written to the content directory.
\<close>

theorem upload_rejects_unsupported_type:
  assumes "file_part req = Some (originalname, bytes)"
    and "toLowerCase (extname originalname) \<noteq> js ''.md''"
    and "toLowerCase (extname originalname) \<noteq> js ''.pdf''"
  shows "upload fails st req = (Inl (MulterError ''Only MD and PDF files are allowed''), st)"
  using assms by (simp add: upload_def fileFilter_def)

theorem upload_rejects_unsupported_type_witness:
  "toLowerCase (extname (js ''archive.zip'')) = js ''.zip'' \<and>
   upload no_faults example_state zip_request =
     (Inl (MulterError ''Only MD and PDF files are allowed''), example_state)"
  using upload_rejects_unsupported_type
    [of zip_request "js ''archive.zip''" "[0x50, 0x4B, 0x03, 0x04]" no_faults example_state]
  by (simp add: zip_request_def zip_ext)

section \<open>Rename and move\<close>

lemma map_update_absent:
  "i \<notin> set (map id_col rows) \<Longrightarrow> map (\<lambda>r. if id_col r = i then g r else r) rows = rows"
  by (induction rows) auto

lemma trim_new_title: "trim (js '' New Title '') = js ''New Title''"
  by code_simp

text \<open>
  C10. For an identifier that no row of the catalog has, renaming (with a name that is
  not blank) and moving both reply with success and leave the state as it was, provided
  the database reports no error for the update.
\<close>

theorem rename_move_unknown_id:
  assumes "i \<notin> set (map id_col (files st))" and "\<not> fails 0" and "trim d \<noteq> []"
  shows "rename_file fails st i (Some d) = (Inr (''File renamed successfully'', trim d), st) \<and>
         move_file fails st i f = (Inr ''File moved successfully'', st)"
proof -
  have "d \<noteq> []" using assms(3) by (auto simp: trim_def)
  then show ?thesis
    using assms by (simp add: rename_file_def move_file_def update_displayName_def
        update_folderId_def map_update_absent)
qed

theorem rename_move_unknown_id_witness:
  "js ''nope'' \<notin> set (map id_col (files example_state)) \<and>
   trim (js '' New Title '') = js ''New Title'' \<and>
   rename_file no_faults example_state (js ''nope'') (Some (js '' New Title '')) =
     (Inr (''File renamed successfully'', js ''New Title''), example_state) \<and>
   move_file no_faults example_state (js ''nope'') (Some (js ''d1'')) =
     (Inr ''File moved successfully'', example_state)"
proof -
  have a: "js ''nope'' \<notin> set (map id_col (files example_state))"
    by (simp add: example_state_def row_report_def row_scan_def)
  have c: "\<not> no_faults 0" by (simp add: no_faults_def)
  show ?thesis
    using rename_move_unknown_id
      [of "js ''nope''" example_state no_faults "js '' New Title ''" "Some (js ''d1'')"] a c
    by (simp add: trim_new_title)
qed

lemma map_field_update:
  "(\<And>r. f (g r) = f r) \<Longrightarrow> map f (map g rows) = map f rows"
  by (induction rows) auto

lemma find_update_displayName:
  "map_option id_col (find (\<lambda>r. P (originalName r))
      (map (\<lambda>r. if id_col r = i then r\<lparr>displayName := x\<rparr> else r) rows)) =
   map_option id_col (find (\<lambda>r. P (originalName r)) rows)"
  by (induction rows) auto

text \<open>
  C9. Renaming changes nothing but display names: the identifiers, stored names,
  original names, sizes, types, upload dates, paths and folders of all rows, the
  folders and the content directory stay as they are, every row with another
  identifier stays as it is, and the lookup by original name that detects duplicates
  finds the same row as before. With a name that is not blank after trimming (and no
  error of the database) the request succeeds and every row with the given identifier
  carries the trimmed name as its display name, its other columns unchanged. With a
  name that is absent or empty after trimming the request ends with status 400 and the
  state is unchanged.
\<close>

theorem rename_changes_displayName_only:
  "(let st' = snd (rename_file fails st i body) in
      map id_col (files st') = map id_col (files st) \<and>
      map name_col (files st') = map name_col (files st) \<and>
      map originalName (files st') = map originalName (files st) \<and>
      map size_col (files st') = map size_col (files st) \<and>
      map type_col (files st') = map type_col (files st) \<and>
      map uploadDate (files st') = map uploadDate (files st) \<and>
      map filePath (files st') = map filePath (files st) \<and>
      map folderId (files st') = map folderId (files st) \<and>
      folders st' = folders st \<and> blobs st' = blobs st \<and>
      (\<forall>r\<in>set (files st). id_col r \<noteq> i \<longrightarrow> r \<in> set (files st')) \<and>
      (\<forall>n. map_option id_col (select_by_originalName st' n) =
           map_option id_col (select_by_originalName st n))) \<and>
   (\<forall>d. body = Some d \<and> trim d \<noteq> [] \<and> \<not> fails 0 \<longrightarrow>
      fst (rename_file fails st i body) = Inr (''File renamed successfully'', trim d) \<and>
      (\<forall>r\<in>set (files st). id_col r = i \<longrightarrow>
         r\<lparr>displayName := trim d\<rparr> \<in> set (files (snd (rename_file fails st i body))))) \<and>
   (body = None \<or> (\<exists>d. body = Some d \<and> trim d = []) \<longrightarrow>
      rename_file fails st i body = (Inl (Http 400 ''Display name is required''), st))"
proof -
  let ?g = "\<lambda>x r. if id_col r = i then r\<lparr>displayName := x\<rparr> else r"
  have frame: "map f (map (?g x) rows) = map f rows" if "\<And>r y. f (r\<lparr>displayName := y\<rparr>) = f r"
    for f :: "file_row \<Rightarrow> 'b" and x rows
    by (rule map_field_update) (simp add: that)
  have keep: "\<forall>r\<in>set rows. id_col r \<noteq> i \<longrightarrow> r \<in> set (map (?g x) rows)" for x and rows :: "file_row list"
    by (induction rows) auto
  have upd: "\<forall>r\<in>set rows. id_col r = i \<longrightarrow> r\<lparr>displayName := x\<rparr> \<in> set (map (?g x) rows)" for x and rows :: "file_row list"
    by (induction rows) auto
  have sel: "map_option id_col (select_by_originalName (update_displayName st x i) n) =
        map_option id_col (select_by_originalName st n)" for x n
    using find_update_displayName [of "\<lambda>a. text_eq (collation_of st) a n" i x "files st"]
    by (simp add: select_by_originalName_def update_displayName_def)
  have files_cases: "snd (rename_file fails st i body) = st \<or>
      (\<exists>x. snd (rename_file fails st i body) = update_displayName st x i)"
    by (auto simp: rename_file_def split: option.splits)
  have part1: "(let st' = snd (rename_file fails st i body) in
      map id_col (files st') = map id_col (files st) \<and>
      map name_col (files st') = map name_col (files st) \<and>
      map originalName (files st') = map originalName (files st) \<and>
      map size_col (files st') = map size_col (files st) \<and>
      map type_col (files st') = map type_col (files st) \<and>
      map uploadDate (files st') = map uploadDate (files st) \<and>
      map filePath (files st') = map filePath (files st) \<and>
      map folderId (files st') = map folderId (files st) \<and>
      folders st' = folders st \<and> blobs st' = blobs st \<and>
      (\<forall>r\<in>set (files st). id_col r \<noteq> i \<longrightarrow> r \<in> set (files st')) \<and>
      (\<forall>n. map_option id_col (select_by_originalName st' n) =
           map_option id_col (select_by_originalName st n)))"
    using files_cases
  proof
    assume "snd (rename_file fails st i body) = st"
    then show ?thesis by simp
  next
    assume "\<exists>x. snd (rename_file fails st i body) = update_displayName st x i"
    then obtain x where x: "snd (rename_file fails st i body) = update_displayName st x i" ..
    have f: "files (update_displayName st x i) = map (?g x) (files st)"
      by (simp add: update_displayName_def)
    show ?thesis
      unfolding x Let_def f
      using keep [of "files st" x] sel [of x]
      by (simp add: frame update_displayName_def)
  qed
  have part2: "\<forall>d. body = Some d \<and> trim d \<noteq> [] \<and> \<not> fails 0 \<longrightarrow>
      fst (rename_file fails st i body) = Inr (''File renamed successfully'', trim d) \<and>
      (\<forall>r\<in>set (files st). id_col r = i \<longrightarrow>
         r\<lparr>displayName := trim d\<rparr> \<in> set (files (snd (rename_file fails st i body))))"
  proof (intro allI impI)
    fix d assume h: "body = Some d \<and> trim d \<noteq> [] \<and> \<not> fails 0"
    then have "d \<noteq> []" by (auto simp: trim_def)
    with h have r: "rename_file fails st i body =
        (Inr (''File renamed successfully'', trim d), update_displayName st (trim d) i)"
      by (simp add: rename_file_def)
    show "fst (rename_file fails st i body) = Inr (''File renamed successfully'', trim d) \<and>
      (\<forall>r\<in>set (files st). id_col r = i \<longrightarrow>
         r\<lparr>displayName := trim d\<rparr> \<in> set (files (snd (rename_file fails st i body))))"
      using upd [of "files st" "trim d"] by (simp add: r update_displayName_def)
  qed
  have part3: "body = None \<or> (\<exists>d. body = Some d \<and> trim d = []) \<longrightarrow>
      rename_file fails st i body = (Inl (Http 400 ''Display name is required''), st)"
    by (auto simp: rename_file_def)
  show ?thesis using part1 part2 part3 by blast
qed

lemma trim_blank: "trim (js ''   '') = []"
  by code_simp

theorem rename_changes_displayName_only_witness:
  "fst (rename_file no_faults example_state (js ''f1'') (Some (js '' New Title ''))) =
     Inr (''File renamed successfully'', js ''New Title'') \<and>
   row_report\<lparr>displayName := js ''New Title''\<rparr>
     \<in> set (files (snd (rename_file no_faults example_state (js ''f1'') (Some (js '' New Title ''))))) \<and>
   row_scan \<in> set (files (snd (rename_file no_faults example_state (js ''f1'') (Some (js '' New Title ''))))) \<and>
   map originalName (files (snd (rename_file no_faults example_state (js ''f1'') (Some (js '' New Title ''))))) =
     [js ''Report.md'', js ''scan.pdf''] \<and>
   rename_file no_faults example_state (js ''f1'') (Some (js ''   '')) =
     (Inl (Http 400 ''Display name is required''), example_state)"
proof -
  have nf: "\<not> no_faults 0" by (simp add: no_faults_def)
  have ids: "id_col row_report = js ''f1''" "id_col row_scan = js ''f2''"
    "originalName row_report = js ''Report.md''" "originalName row_scan = js ''scan.pdf''"
    by (simp_all add: row_report_def row_scan_def)
  show ?thesis
    using rename_changes_displayName_only
        [of no_faults example_state "js ''f1''" "Some (js '' New Title '')"]
      rename_changes_displayName_only
        [of no_faults example_state "js ''f1''" "Some (js ''   '')"] nf
    by (simp add: Let_def trim_new_title trim_blank example_fields ids)
qed


section \<open>Removal of blobs, and the cascade of a folder\<close>

lemma remove_blob_cases:
  "remove_blob st p =
     (if existsSync st p \<and> denied st p then None
      else Some (st\<lparr>blobs := (blobs st)(p := None)\<rparr>))"
proof (cases "existsSync st p")
  case True
  then show ?thesis by (auto simp: remove_blob_def unlinkSync_def existsSync_def)
next
  case False
  then have "(blobs st)(p := None) = blobs st" by (auto simp: existsSync_def)
  with False show ?thesis by (simp add: remove_blob_def)
qed

lemma remove_blobs_frame:
  "files (snd (remove_blobs ps st)) = files st \<and>
   folders (snd (remove_blobs ps st)) = folders st \<and>
   collation_of (snd (remove_blobs ps st)) = collation_of st \<and>
   denied (snd (remove_blobs ps st)) = denied st"
  by (induction ps arbitrary: st) (simp_all add: remove_blob_cases)

lemma remove_blobs_completes:
  "fst (remove_blobs ps st) \<longleftrightarrow> (\<forall>p\<in>set ps. existsSync st p \<longrightarrow> \<not> denied st p)"
proof (induction ps arbitrary: st)
  case Nil
  show ?case by simp
next
  case (Cons p ps)
  show ?case
    by (auto simp: remove_blob_cases Cons.IH existsSync_def)
qed

lemma remove_blobs_result:
  "fst (remove_blobs ps st) \<Longrightarrow>
   blobs (snd (remove_blobs ps st)) = (\<lambda>p. if p \<in> set ps then None else blobs st p)"
proof (induction ps arbitrary: st)
  case Nil
  show ?case by simp
next
  case (Cons p ps)
  from Cons.prems have ok: "\<not> (existsSync st p \<and> denied st p)"
    and rest: "fst (remove_blobs ps (st\<lparr>blobs := (blobs st)(p := None)\<rparr>))"
    by (auto simp: remove_blob_cases split: if_splits)
  show ?case
    using ok Cons.IH [OF rest] by (auto simp: remove_blob_cases)
qed

lemma remove_blobs_gone:
  "fst (remove_blobs ps st) \<Longrightarrow> p \<in> set ps \<Longrightarrow> \<not> existsSync (snd (remove_blobs ps st)) p"
  by (simp add: remove_blobs_result existsSync_def)


text \<open>
  C3. Deleting a folder succeeds exactly when the database reports no error and no
  removal of an existing blob of the folder's files is refused. After a success no
  row refers to the folder, no blob of the rows that referred to it exists, and the
  folder row is gone. In every other outcome the folder row is still there. The
  order of the steps shows in the outcomes that stop half way: when the removal of
  the rows fails the blobs are already gone and all rows are still there; when the
  removal of the folder row fails the blobs and the rows are already gone.
\<close>

theorem delete_folder_cascade:
  "(let res = fst (delete_folder fails st f); st' = snd (delete_folder fails st f);
        removable = (\<forall>r\<in>set (select_by_folder st f).
                       existsSync st (filePath r) \<longrightarrow> \<not> denied st (filePath r))
    in (res = Inr ''Folder deleted successfully'' \<longleftrightarrow>
          \<not> fails 0 \<and> removable \<and> \<not> fails 1 \<and> \<not> fails 2) \<and>
       (res = Inr ''Folder deleted successfully'' \<longrightarrow>
          select_by_folder st' f = [] \<and>
          (\<forall>r\<in>set (select_by_folder st f). \<not> existsSync st' (filePath r)) \<and>
          f \<notin> set (map folder_id (folders st')) \<and>
          files st' = filter (\<lambda>r. folderId r \<noteq> Some f) (files st)) \<and>
       (res \<noteq> Inr ''Folder deleted successfully'' \<longrightarrow> folders st' = folders st) \<and>
       (res = Inl (Http 500 ''Database error'') \<longrightarrow> st' = st) \<and>
       (res = Inl (Http 500 ''Failed to delete files'') \<longrightarrow>
          (\<forall>r\<in>set (select_by_folder st f). \<not> existsSync st' (filePath r)) \<and>
          files st' = files st) \<and>
       (res = Inl (Http 500 ''Failed to delete folder'') \<longrightarrow>
          (\<forall>r\<in>set (select_by_folder st f). \<not> existsSync st' (filePath r)) \<and>
          select_by_folder st' f = []))"
proof -
  obtain ok st1 where rb: "remove_blobs (map filePath (select_by_folder st f)) st = (ok, st1)"
    by force
  have ok_iff: "ok \<longleftrightarrow> (\<forall>r\<in>set (select_by_folder st f).
                       existsSync st (filePath r) \<longrightarrow> \<not> denied st (filePath r))"
    using remove_blobs_completes [of "map filePath (select_by_folder st f)" st] rb by simp
  have frame: "files st1 = files st" "folders st1 = folders st"
    using remove_blobs_frame [of "map filePath (select_by_folder st f)" st] rb by simp_all
  have gone: "\<forall>r\<in>set (select_by_folder st f). \<not> existsSync st1 (filePath r)" if ok
    using remove_blobs_gone [of "map filePath (select_by_folder st f)" st] rb that by simp
  have none_left: "filter (\<lambda>r. folderId r = Some f) (filter (\<lambda>r. folderId r \<noteq> Some f) rows) = []"
    for rows :: "file_row list"
    by (induction rows) auto
  consider (select) "fails 0"
    | (thrown) "\<not> fails 0" "\<not> ok"
    | (rows) "\<not> fails 0" "ok" "fails 1"
    | (folder) "\<not> fails 0" "ok" "\<not> fails 1" "fails 2"
    | (success) "\<not> fails 0" "ok" "\<not> fails 1" "\<not> fails 2"
    by blast
  then show ?thesis
  proof cases
    case select
    then show ?thesis by (simp add: delete_folder_def)
  next
    case thrown
    then have "delete_folder fails st f = (Inl UncaughtException, st1)"
      by (simp add: delete_folder_def rb)
    with thrown ok_iff frame show ?thesis by simp
  next
    case rows
    then have "delete_folder fails st f = (Inl (Http 500 ''Failed to delete files''), st1)"
      by (simp add: delete_folder_def rb)
    with rows frame gone show ?thesis by simp
  next
    case folder
    then have "delete_folder fails st f =
        (Inl (Http 500 ''Failed to delete folder''), delete_by_folder st1 f)"
      by (simp add: delete_folder_def rb)
    with folder frame gone show ?thesis
      by (simp add: delete_by_folder_def select_by_folder_def existsSync_def none_left)
  next
    case success
    then have "delete_folder fails st f =
        (Inr ''Folder deleted successfully'', delete_folder_row (delete_by_folder st1 f) f)"
      by (simp add: delete_folder_def rb)
    with success frame gone ok_iff show ?thesis
      by (auto simp: delete_by_folder_def delete_folder_row_def select_by_folder_def
          existsSync_def none_left)
  qed
qed


lemma example_rows_fault:
  "fst (delete_folder rows_fault example_state (js ''d1'')) = Inl (Http 500 ''Failed to delete files'')"
  by (simp add: delete_folder_def rows_fault_def example_folder_rows example_paths
      remove_blob_def unlinkSync_def existsSync_def example_fields)

theorem delete_folder_cascade_witness:
  "fst (delete_folder no_faults example_state (js ''d1'')) = Inr ''Folder deleted successfully'' \<and>
   select_by_folder (snd (delete_folder no_faults example_state (js ''d1''))) (js ''d1'') = [] \<and>
   \<not> existsSync (snd (delete_folder no_faults example_state (js ''d1'')))
       (js ''uploads/1_a_Report.md'') \<and>
   js ''d1'' \<notin> set (map folder_id (folders (snd (delete_folder no_faults example_state (js ''d1''))))) \<and>
   fst (delete_folder rows_fault example_state (js ''d1'')) =
     Inl (Http 500 ''Failed to delete files'') \<and>
   \<not> existsSync (snd (delete_folder rows_fault example_state (js ''d1'')))
       (js ''uploads/1_a_Report.md'') \<and>
   files (snd (delete_folder rows_fault example_state (js ''d1''))) = files example_state \<and>
   folders (snd (delete_folder rows_fault example_state (js ''d1''))) = folders example_state"
proof -
  have nf: "\<not> no_faults 0" "\<not> no_faults 1" "\<not> no_faults 2"
    by (simp_all add: no_faults_def)
  have free: "\<not> denied example_state (js ''uploads/1_a_Report.md'')"
    by (simp add: example_fields)
  show ?thesis
    using delete_folder_cascade [of no_faults example_state "js ''d1''"]
      delete_folder_cascade [of rows_fault example_state "js ''d1''"]
      nf free example_rows_fault
    by (simp add: Let_def example_folder_rows example_paths)
qed

section \<open>Clearing the catalog\<close>

text \<open>
  C7, as stated, fails: with the blob of the first row locked, the removal throws, the
  loop over the rows stops there, the blob of the second row (which could be removed)
  stays, and no row is deleted.
\<close>

theorem clear_all_stops_at_refused_removal:
  "existsSync locked_state (js ''uploads/1_a_Report.md'') \<and>
   unlinkSync locked_state (js ''uploads/1_a_Report.md'') = None \<and>
   \<not> denied locked_state (js ''uploads/2_b_scan.pdf'') \<and>
   fst (clear_all no_faults locked_state) = Inl UncaughtException \<and>
   files (snd (clear_all no_faults locked_state)) = [row_report, row_scan] \<and>
   existsSync (snd (clear_all no_faults locked_state)) (js ''uploads/2_b_scan.pdf'')"
  by (simp add: clear_all_def no_faults_def locked_state_def example_fields example_paths
      remove_blob_def unlinkSync_def existsSync_def)

text \<open>
  C7, amended. Clearing removes the blob of each row and skips a blob that is already
  missing. When the removal of no existing blob is refused and the database reports no
  error, the request succeeds, the list of files is empty afterwards and no blob of a
  former row is left in the content directory.
\<close>

theorem clear_all_total:
  assumes "\<forall>r\<in>set (files st). existsSync st (filePath r) \<longrightarrow> \<not> denied st (filePath r)"
    and "\<not> fails 0" and "\<not> fails 1"
  shows "fst (clear_all fails st) = Inr ''All files cleared'' \<and>
         list_files no_faults (snd (clear_all fails st)) = Inr [] \<and>
         files (snd (clear_all fails st)) = [] \<and>
         (\<forall>r\<in>set (files st). \<not> existsSync (snd (clear_all fails st)) (filePath r))"
proof -
  obtain ok st1 where rb: "remove_blobs (map filePath (files st)) st = (ok, st1)"
    by force
  have ok using remove_blobs_completes [of "map filePath (files st)" st] rb assms(1) by simp
  have gone: "\<forall>r\<in>set (files st). \<not> existsSync st1 (filePath r)"
    using remove_blobs_gone [of "map filePath (files st)" st] rb \<open>ok\<close> by simp
  have "clear_all fails st = (Inr ''All files cleared'', delete_all st1)"
    using assms(2,3) \<open>ok\<close> by (simp add: clear_all_def rb)
  with gone show ?thesis
    by (simp add: delete_all_def list_files_def no_faults_def select_all_newest_first_def
        existsSync_def)
qed

theorem clear_all_total_witness:
  "\<not> existsSync missing_blob_state (js ''uploads/1_a_Report.md'') \<and>
   fst (clear_all no_faults missing_blob_state) = Inr ''All files cleared'' \<and>
   list_files no_faults (snd (clear_all no_faults missing_blob_state)) = Inr [] \<and>
   \<not> existsSync (snd (clear_all no_faults missing_blob_state)) (js ''uploads/1_a_Report.md'') \<and>
   \<not> existsSync (snd (clear_all no_faults missing_blob_state)) (js ''uploads/2_b_scan.pdf'')"
proof -
  have nf: "\<not> no_faults 0" "\<not> no_faults 1" by (simp_all add: no_faults_def)
  have fl: "files missing_blob_state = [row_report, row_scan]"
    "denied missing_blob_state = (\<lambda>p. False)"
    by (simp_all add: missing_blob_state_def example_fields)
  have m: "\<not> existsSync missing_blob_state (js ''uploads/1_a_Report.md'')"
    by (simp add: missing_blob_state_def existsSync_def)
  show ?thesis
    using clear_all_total [of missing_blob_state no_faults] nf m
    by (simp add: fl example_paths)
qed

section \<open>Collisions of names, and the content of a file\<close>

lemma report_md_decoded:
  "decodeName (js ''report.md'') = js ''report.md''"
  "utf8_string (latin1_bytes (js ''report.md'')) = js ''report.md''"
  by (simp_all add: decodeName_def utf8_string_def latin1_bytes_def utf16_units_def js_def)

lemma report_md_ext:
  "fileFilter (js ''report.md'')"
  "replace_dot (toLowerCase (extname (js ''report.md''))) = js ''md''"
  by code_simp+

lemma report_md_folded:
  "map lower_unit (js ''Report.md'') = map lower_unit (js ''report.md'')"
  "toLowerCase (js ''Report.md'') = toLowerCase (js ''report.md'')"
  by code_simp+

lemmas report_md_facts = report_md_decoded report_md_ext report_md_folded

lemma example_names:
  "originalName row_report = js ''Report.md''" "originalName row_scan = js ''scan.pdf''"
  "id_col row_report = js ''f1''" "id_col row_scan = js ''f2''"
  "type_col row_scan = js ''pdf''"
  by (simp_all add: row_report_def row_scan_def)

lemma text_eq_refl: "text_eq c a a"
  by (cases c) (simp_all add: text_eq_def)

text \<open>
  The lookup finds a row for a name that some row carries exactly and, under the
  collation \<^verbatim>\<open>NOCASE\<close>, for a name that differs from it in the case of ASCII
  letters only.
\<close>

lemma lookup_finds_matching_name:
  assumes "r \<in> set (files st)"
    and "originalName r = n \<or> (collation_of st = NOCASE \<and> toLowerCase (originalName r) = toLowerCase n)"
  shows "\<exists>r'. select_by_originalName st n = Some r' \<and> text_eq (collation_of st) (originalName r') n"
proof -
  have "text_eq (collation_of st) (originalName r) n"
    using assms(2) by (auto simp: text_eq_def toLowerCase_def split: collation.splits)
  with assms(1) have "find (\<lambda>r. text_eq (collation_of st) (originalName r) n) (files st) \<noteq> None"
    by (auto simp: find_None_iff)
  then obtain r' where r': "find (\<lambda>r. text_eq (collation_of st) (originalName r) n) (files st) = Some r'"
    by blast
  then have "text_eq (collation_of st) (originalName r') n"
    by (auto simp: find_Some_iff)
  with r' show ?thesis by (simp add: select_by_originalName_def)
qed

lemma find_distinct_id:
  "distinct (map id_col rows) \<Longrightarrow> r \<in> set rows \<Longrightarrow> find (\<lambda>x. id_col x = id_col r) rows = Some r"
  by (induction rows) (auto simp: rev_image_eqI)

text \<open>Under the collation of the server's own table the lookup is exact.\<close>

lemma lookup_binary_is_exact:
  assumes "collation_of st = BINARY" and "select_by_originalName st n = Some r"
  shows "originalName r = n"
  using assms by (auto simp: select_by_originalName_def text_eq_def find_Some_iff)

text \<open>
  When the lookup finds a row, the upload replaces it: given identifiers that are
  unique, a new identifier and a new path, one matching row at most and no refusal of
  the removal, the row found and its blob are gone afterwards, and the one row that
  matches the name is the new one, with the new identifier, the time of the insertion
  and the decoded name as its display name.
\<close>

lemma upload_replaces_matching_record:
  assumes part: "file_part req = Some (nm, bytes)"
    and ok: "fileFilter nm" "length bytes \<le> 10 * 1024 * 1024"
    and nofault: "\<And>n. \<not> fails n"
    and found: "select_by_originalName st (decodeName nm) = Some old"
    and one: "\<And>r. r \<in> set (files st) \<Longrightarrow>
               text_eq (collation_of st) (originalName r) (decodeName nm) \<Longrightarrow> r = old"
    and ids: "distinct (map id_col (files st))"
    and fresh_id: "fileId req \<notin> set (map id_col (files st))"
    and fresh_path: "storage_path (stamp req) nm \<noteq> filePath old"
    and free: "\<not> denied st (filePath old)"
  shows "\<exists>reply new.
           upload fails st req = (Inr reply, snd (upload fails st req)) \<and>
           reply_id reply = fileId req \<and>
           filter (\<lambda>r. text_eq (collation_of st) (originalName r) (decodeName nm))
             (files (snd (upload fails st req))) = [new] \<and>
           id_col new = fileId req \<and> uploadDate new = insertTime req \<and>
           originalName new = decodeName nm \<and> displayName new = decodeName nm \<and>
           old \<notin> set (files (snd (upload fails st req))) \<and>
           \<not> existsSync (snd (upload fails st req)) (filePath old) \<and>
           blobs (snd (upload fails st req)) (storage_path (stamp req) nm) = Some bytes"
proof -
  let ?p = "storage_path (stamp req) nm"
  let ?st1 = "st\<lparr>blobs := (blobs st)(?p \<mapsto> bytes)\<rparr>"
  let ?st2 = "?st1\<lparr>blobs := (blobs ?st1)(filePath old := None)\<rparr>"
  let ?st3 = "delete_by_id ?st2 (id_col old)"
  let ?match = "\<lambda>r. text_eq (collation_of st) (originalName r) (decodeName nm)"
  define new where "new =
     \<lparr>id_col = fileId req, name_col = storage_filename (stamp req) nm,
      originalName = decodeName nm, displayName = decodeName nm, size_col = length bytes,
      type_col = replace_dot (toLowerCase (extname nm)), uploadDate = insertTime req,
      filePath = ?p, folderId = or_null (body_folderId req)\<rparr>"
  have old_in: "old \<in> set (files st)"
    using found by (auto simp: select_by_originalName_def find_Some_iff)
  have sel1: "select_by_originalName ?st1 (decodeName nm) = Some old"
    using found by (simp add: select_by_originalName_def)
  have byid: "select_by_id ?st1 (id_col old) = Some old"
    using find_distinct_id [OF ids old_in] by (simp add: select_by_id_def)
  have rm: "remove_blob ?st1 (filePath old) = Some ?st2"
    using free by (simp add: remove_blob_cases)
  have fresh3: "fileId req \<notin> set (map id_col (files ?st3))"
    using fresh_id by (auto simp: delete_by_id_def)
  have ins: "insertFile fails req nm (length bytes) ?st3 =
      (Inr \<lparr>reply_id = fileId req, reply_name = storage_filename (stamp req) nm,
            reply_originalName = decodeName nm, reply_displayName = decodeName nm,
            reply_size = length bytes, reply_type = replace_dot (toLowerCase (extname nm)),
            reply_uploadDate = replyTime req\<rparr>,
       ?st3\<lparr>files := files ?st3 @ [new]\<rparr>)"
    using fresh3 nofault by (simp add: insertFile_def insert_row_def Let_def new_def)
  have up: "upload fails st req =
      (Inr \<lparr>reply_id = fileId req, reply_name = storage_filename (stamp req) nm,
            reply_originalName = decodeName nm, reply_displayName = decodeName nm,
            reply_size = length bytes, reply_type = replace_dot (toLowerCase (extname nm)),
            reply_uploadDate = replyTime req\<rparr>,
       ?st3\<lparr>files := files ?st3 @ [new]\<rparr>)"
    using part ok nofault sel1 byid rm ins by (simp add: upload_def Let_def)
  have no_match: "filter (\<lambda>r. id_col r \<noteq> id_col old \<and> ?match r) (files st) = []"
    using one by (auto simp: filter_empty_conv)
  have "id_col new \<noteq> id_col old"
    using fresh_id old_in by (auto simp: new_def)
  then have new_ne: "new \<noteq> old"
    by auto
  have matches: "filter ?match (files ?st3 @ [new]) = [new]"
    by (simp add: delete_by_id_def no_match new_def text_eq_refl)
  show ?thesis
    unfolding up
    using matches new_ne fresh_path
    by (intro exI [of _ "\<lparr>reply_id = fileId req, reply_name = storage_filename (stamp req) nm,
            reply_originalName = decodeName nm, reply_displayName = decodeName nm,
            reply_size = length bytes, reply_type = replace_dot (toLowerCase (extname nm)),
            reply_uploadDate = replyTime req\<rparr>"] exI [of _ new])
      (simp add: new_def delete_by_id_def existsSync_def)
qed


lemma exact_name_facts:
  "decodeName (js ''Report.md'') = js ''Report.md''"
  "utf8_string (latin1_bytes (js ''Report.md'')) = js ''Report.md''"
  by (simp_all add: decodeName_def utf8_string_def latin1_bytes_def utf16_units_def js_def)

lemma exact_name_filter: "fileFilter (js ''Report.md'')"
  by code_simp

lemma upload_replaces_matching_record_example:
  "\<exists>reply new.
     upload no_faults example_state exact_request =
       (Inr reply, snd (upload no_faults example_state exact_request)) \<and>
     reply_id reply = js ''f3'' \<and>
     filter (\<lambda>r. originalName r = js ''Report.md'')
       (files (snd (upload no_faults example_state exact_request))) = [new] \<and>
     id_col new = js ''f3'' \<and> uploadDate new = js ''2024-01-03T00:00:00.000Z'' \<and>
     originalName new = js ''Report.md'' \<and> displayName new = js ''Report.md'' \<and>
     row_report \<notin> set (files (snd (upload no_faults example_state exact_request))) \<and>
     \<not> existsSync (snd (upload no_faults example_state exact_request))
         (js ''uploads/1_a_Report.md'') \<and>
     blobs (snd (upload no_faults example_state exact_request)) (js ''uploads/3_c_Report.md'') =
       Some [0x23, 0x20, 0x42]"
proof -
  have sel: "select_by_originalName example_state (js ''Report.md'') = Some row_report"
    by (simp add: select_by_originalName_def text_eq_def example_fields example_names)
  have one: "r = row_report"
    if "r \<in> set (files example_state)"
      and "text_eq (collation_of example_state) (originalName r) (js ''Report.md'')" for r
    using that by (auto simp: text_eq_def example_fields example_names)
  have path: "storage_path (js ''3_c'') (js ''Report.md'') = js ''uploads/3_c_Report.md''"
    by (simp add: storage_path_def storage_filename_def uploadsDir_def exact_name_facts js_append)
  show ?thesis
    using upload_replaces_matching_record
      [of exact_request "js ''Report.md''" "[0x23, 0x20, 0x42]" no_faults example_state row_report]
      sel one exact_name_filter
    by (simp add: exact_request_def exact_name_facts example_fields example_names example_paths
        no_faults_def path text_eq_def)
qed

text \<open>
  C2. In a catalog created by the server, the lookup by original name that the upload
  uses does not find a row whose name differs from the queried one in letter case only.
  With the collation that the reset script declares for the same column it does.
\<close>

theorem lookup_by_name_is_case_sensitive:
  "collation_of example_state = initializeDatabase None \<and>
   originalName row_report = js ''Report.md'' \<and>
   toLowerCase (js ''Report.md'') = toLowerCase (js ''report.md'') \<and>
   select_by_originalName example_state (js ''report.md'') = None \<and>
   select_by_originalName (example_state\<lparr>collation_of := resetDatabase\<rparr>) (js ''report.md'') =
     Some row_report"
  by (simp add: select_by_originalName_def text_eq_def example_fields example_names
      report_md_facts initializeDatabase_def resetDatabase_def)

text \<open>
  C1. In a catalog created by the server, the upload of \<^verbatim>\<open>report.md\<close> over an
  existing \<^verbatim>\<open>Report.md\<close> succeeds and replaces nothing: both rows exist afterwards,
  and the blob of the old row is still in the content directory.
\<close>

theorem upload_case_variant_is_not_replaced:
  "map originalName (files example_state) = [js ''Report.md'', js ''scan.pdf''] \<and>
   (\<exists>reply. fst (upload no_faults example_state report_request) = Inr reply) \<and>
   map originalName (files (snd (upload no_faults example_state report_request))) =
     [js ''Report.md'', js ''scan.pdf'', js ''report.md''] \<and>
   map id_col (files (snd (upload no_faults example_state report_request))) =
     [js ''f1'', js ''f2'', js ''f3''] \<and>
   existsSync (snd (upload no_faults example_state report_request)) (js ''uploads/1_a_Report.md'')"
  by (simp add: upload_def report_request_def report_md_facts insertFile_def insert_row_def
      select_by_originalName_def text_eq_def example_fields example_names no_faults_def
      storage_path_def storage_filename_def uploadsDir_def js_append existsSync_def Let_def)

lemma scan_blob_text: "utf8_string [0x25, 0x50, 0x44, 0x46, 0xFF] = [0x25, 0x50, 0x44, 0x46, 0xFFFD]"
  by (simp add: utf8_string_def utf16_units_def)

lemma scan_blob_text_other:
  "utf8_string [0x25, 0x50, 0x44, 0x46, 0xFE] = [0x25, 0x50, 0x44, 0x46, 0xFFFD]"
  by (simp add: utf8_string_def utf16_units_def)

text \<open>
  C4. For a row of type \<^verbatim>\<open>pdf\<close> the content of the reply is the blob decoded as
  UTF-8 text, not its bytes: the byte \<open>FF\<close> of the blob comes out as U+FFFD, and a
  blob that ends in \<open>FE\<close> instead gives the same reply, so that no reader of the
  reply can tell the bytes of the blob.
\<close>

theorem get_file_decodes_pdf_as_text:
  "type_col row_scan = js ''pdf'' \<and>
   blobs example_state (filePath row_scan) = Some [0x25, 0x50, 0x44, 0x46, 0xFF] \<and>
   get_file no_faults example_state (js ''f2'') =
     Inr (row_scan, [0x25, 0x50, 0x44, 0x46, 0xFFFD]) \<and>
   get_file no_faults
     (example_state\<lparr>blobs := (blobs example_state)
        (filePath row_scan \<mapsto> [0x25, 0x50, 0x44, 0x46, 0xFE])\<rparr>) (js ''f2'') =
     Inr (row_scan, [0x25, 0x50, 0x44, 0x46, 0xFFFD])"
  by (simp add: get_file_def select_by_id_def readFile_utf8_def example_fields example_names
      example_paths no_faults_def scan_blob_text scan_blob_text_other)

end
